theory Spec2Isabelle
  imports Main
begin

section \<open>The naive recursive Fibonacci function of \<^verbatim>\<open>fibonacci_app.py\<close>\<close>

text \<open>
  The source:
  \<^verbatim>\<open>
  def fibonacci_recursive(n):
      if n < 0:
          raise ValueError("n must be non-negative")
      if n <= 1:
          return n
      return fibonacci_recursive(n - 1) + fibonacci_recursive(n - 2)
  \<close>
  Python integers are unbounded, so the argument and the result are \<^typ>\<open>int\<close>.
  The \<^verbatim>\<open>raise\<close> is a value of the result type: \<open>Inl\<close> carries the exception,
  \<open>Inr\<close> the returned number. An exception raised by a recursive call leaves the
  calling frame at once, so the second call is only made when the first returned.
\<close>

datatype error = ValueError string

function fibonacci_recursive :: "int \<Rightarrow> error + int" where
  "fibonacci_recursive n =
     (if n < 0 then Inl (ValueError ''n must be non-negative'')
      else if n \<le> 1 then Inr n
      else (case fibonacci_recursive (n - 1) of
              Inl e \<Rightarrow> Inl e
            | Inr a \<Rightarrow>
                (case fibonacci_recursive (n - 2) of
                   Inl e \<Rightarrow> Inl e
                 | Inr b \<Rightarrow> Inr (a + b))))"
  by pat_completeness auto
termination
  by (relation "measure nat") auto

declare fibonacci_recursive.simps [simp del]

text \<open>The module's single call site: \<^verbatim>\<open>result = fibonacci_recursive(10)\<close>.\<close>

definition result :: "error + int" where
  "result = fibonacci_recursive 10"

section \<open>The recursion with a bounded call stack\<close>

text \<open>
  The same body, evaluated with room for only \<open>d\<close> further nested calls below the
  current one. The two guards are tested first, as in the source; a recursive call
  that finds no room left ends the evaluation without an outcome (\<open>None\<close>), which
  is what a Python interpreter does when its recursion limit is reached. An outcome
  \<open>Some r\<close> therefore means that the call finished, never nesting more than \<open>d\<close>
  calls below itself.
\<close>

fun fibonacci_recursive_depth :: "nat \<Rightarrow> int \<Rightarrow> (error + int) option" where
  "fibonacci_recursive_depth 0 n =
     (if n < 0 then Some (Inl (ValueError ''n must be non-negative''))
      else if n \<le> 1 then Some (Inr n)
      else None)"
| "fibonacci_recursive_depth (Suc d) n =
     (if n < 0 then Some (Inl (ValueError ''n must be non-negative''))
      else if n \<le> 1 then Some (Inr n)
      else (case fibonacci_recursive_depth d (n - 1) of
              None \<Rightarrow> None
            | Some (Inl e) \<Rightarrow> Some (Inl e)
            | Some (Inr a) \<Rightarrow>
                (case fibonacci_recursive_depth d (n - 2) of
                   None \<Rightarrow> None
                 | Some (Inl e) \<Rightarrow> Some (Inl e)
                 | Some (Inr b) \<Rightarrow> Some (Inr (a + b)))))"

text \<open>
  The calls that the body makes: \<open>(m, n)\<close> is in the relation when a call with
  argument \<open>n\<close> passes both guards and calls itself with argument \<open>m\<close>.
\<close>

definition fibonacci_recursive_calls :: "(int \<times> int) set" where
  "fibonacci_recursive_calls =
     {(m, n). \<not> n < 0 \<and> \<not> n \<le> 1 \<and> (m = n - 1 \<or> m = n - 2)}"

section \<open>The function inside the state of the process\<close>









subsection \<open>Concrete states\<close>









section \<open>The Fibonacci sequence of the specification\<close>

text \<open>
  The specification's glossary: the integer sequence in which each term is the sum
  of the two preceding terms, starting \<open>0, 1\<close>. This definition follows those words
  and not the code; the code is compared with it below.
\<close>

fun fibonacci_sequence :: "nat \<Rightarrow> int" where
  "fibonacci_sequence 0 = 0"
| "fibonacci_sequence (Suc 0) = 1"
| "fibonacci_sequence (Suc (Suc k)) = fibonacci_sequence (Suc k) + fibonacci_sequence k"

text \<open>
  Two consecutive terms at once. It is only used to evaluate a term of the
  sequence at a large index in linearly many steps.
\<close>

fun fibonacci_pair :: "nat \<Rightarrow> int \<times> int" where
  "fibonacci_pair 0 = (0, 1)"
| "fibonacci_pair (Suc k) = (case fibonacci_pair k of (a, b) \<Rightarrow> (b, a + b))"

section \<open>Unfolding lemmas, one per branch of the source\<close>

lemma fibonacci_recursive_neg:
  "n < 0 \<Longrightarrow> fibonacci_recursive n = Inl (ValueError ''n must be non-negative'')"
  by (subst fibonacci_recursive.simps) simp

lemma fibonacci_recursive_base:
  "0 \<le> n \<Longrightarrow> n \<le> 1 \<Longrightarrow> fibonacci_recursive n = Inr n"
  by (subst fibonacci_recursive.simps) simp

lemma fibonacci_recursive_step:
  "1 < n \<Longrightarrow> fibonacci_recursive n =
     (case fibonacci_recursive (n - 1) of
        Inl e \<Rightarrow> Inl e
      | Inr a \<Rightarrow>
          (case fibonacci_recursive (n - 2) of
             Inl e \<Rightarrow> Inl e
           | Inr b \<Rightarrow> Inr (a + b)))"
  by (subst fibonacci_recursive.simps) simp

section \<open>Success on the non-negative integers\<close>

text \<open>
  Computation induction along the function's own calls: both recursive calls of a
  non-negative argument above \<open>1\<close> are on non-negative arguments again.
\<close>

lemma fibonacci_recursive_nonneg_value:
  "0 \<le> n \<Longrightarrow> \<exists>v. fibonacci_recursive n = Inr v \<and> 0 \<le> v"
proof (induction n rule: fibonacci_recursive.induct)
  case (1 n)
  show ?case
  proof (cases "n \<le> 1")
    case True
    with "1.prems" show ?thesis by (simp add: fibonacci_recursive_base)
  next
    case False
    then have big: "1 < n" by simp
    from big "1.prems" "1.IH"(1)
    obtain a where a: "fibonacci_recursive (n - 1) = Inr a" "0 \<le> a"
      by auto
    from big "1.prems" "1.IH"(2)[OF _ _ a(1)]
    obtain b where b: "fibonacci_recursive (n - 2) = Inr b" "0 \<le> b"
      by auto
    from big a b show ?thesis by (simp add: fibonacci_recursive_step)
  qed
qed

section \<open>The contract on the integers\<close>

text \<open>
  Claim C2. Called with \<open>0\<close> the function returns \<open>0\<close>, and called with \<open>1\<close> it returns
  \<open>1\<close>: in both base cases the argument itself is returned.
\<close>

theorem fibonacci_recursive_base_cases:
  "fibonacci_recursive 0 = Inr 0 \<and> fibonacci_recursive 1 = Inr 1"
  by (simp add: fibonacci_recursive_base)

text \<open>
  Claim C1. For every integer \<open>n \<ge> 2\<close> the two recursive calls return numbers, and
  the call on \<open>n\<close> returns exactly their sum.
\<close>

theorem fibonacci_recursive_recurrence:
  assumes "2 \<le> n"
  shows "\<exists>a b. fibonacci_recursive (n - 1) = Inr a
             \<and> fibonacci_recursive (n - 2) = Inr b
             \<and> fibonacci_recursive n = Inr (a + b)"
proof -
  from assms have big: "1 < n" and "0 \<le> n - 1" and "0 \<le> n - 2" by simp_all
  then obtain a b
    where a: "fibonacci_recursive (n - 1) = Inr a"
      and b: "fibonacci_recursive (n - 2) = Inr b"
    using fibonacci_recursive_nonneg_value by blast
  from big a b have "fibonacci_recursive n = Inr (a + b)"
    by (simp add: fibonacci_recursive_step)
  with a b show ?thesis by blast
qed

theorem fibonacci_recursive_recurrence_witness:
  "(2::int) \<le> 7 \<and> fibonacci_recursive 6 = Inr 8 \<and> fibonacci_recursive 5 = Inr 5
     \<and> fibonacci_recursive 7 = Inr (8 + 5)"
proof -
  have h: "(2::int) \<le> 7" by simp
  from fibonacci_recursive_recurrence[OF h] obtain a b
    where ab: "fibonacci_recursive (7 - 1) = Inr a" "fibonacci_recursive (7 - 2) = Inr b"
      "fibonacci_recursive 7 = Inr (a + b)"
    by blast
  have six: "fibonacci_recursive 6 = Inr 8" by code_simp
  have five: "fibonacci_recursive 5 = Inr 5" by code_simp
  from ab six five have "a = 8" "b = 5" by simp_all
  with ab(3) six five h show ?thesis by simp
qed

text \<open>
  Claim C3. The call made by the display code, on the literal argument \<open>10\<close>,
  returns exactly \<open>55\<close>, which is the value bound to \<^verbatim>\<open>result\<close>.
\<close>

theorem fibonacci_recursive_10:
  "fibonacci_recursive 10 = Inr 55 \<and> result = Inr 55"
  unfolding result_def by code_simp

text \<open>
  Claim C4. For every integer \<open>n < 0\<close> the call fails with the \<^verbatim>\<open>ValueError\<close> whose
  message says that \<open>n\<close> must be non-negative. The exception is raised by the first
  guard, before any recursive call: a call stack with no room for a nested call
  gives the same outcome.
\<close>

theorem fibonacci_recursive_rejects_negative:
  assumes "n < 0"
  shows "fibonacci_recursive n = Inl (ValueError ''n must be non-negative'')
       \<and> fibonacci_recursive_depth 0 n = Some (Inl (ValueError ''n must be non-negative''))"
  using assms by (simp add: fibonacci_recursive_neg)

theorem fibonacci_recursive_rejects_negative_witness:
  "(- 1::int) < 0
     \<and> fibonacci_recursive (- 1) = Inl (ValueError ''n must be non-negative'')
     \<and> fibonacci_recursive_depth 0 (- 1) = Some (Inl (ValueError ''n must be non-negative''))"
proof -
  have h: "(- 1::int) < 0" by simp
  from fibonacci_recursive_rejects_negative[OF h] h show ?thesis by simp
qed

text \<open>
  Claim C5. For every integer \<open>n \<ge> 0\<close> the call succeeds and returns an integer; and
  whenever a call fails, its argument is negative and the failure is the
  \<^verbatim>\<open>ValueError\<close> of the first guard, so there is no other error.
\<close>

theorem fibonacci_recursive_succeeds:
  "(0 \<le> n \<longrightarrow> (\<exists>v. fibonacci_recursive n = Inr v))
     \<and> (\<forall>e. fibonacci_recursive n = Inl e \<longrightarrow>
            n < 0 \<and> e = ValueError ''n must be non-negative'')"
proof (cases "n < 0")
  case True
  then show ?thesis by (simp add: fibonacci_recursive_neg)
next
  case False
  then have "0 \<le> n" by simp
  from fibonacci_recursive_nonneg_value[OF this] show ?thesis by auto
qed

theorem fibonacci_recursive_succeeds_witness:
  "(0::int) \<le> 10 \<and> (\<exists>v. fibonacci_recursive 10 = Inr v)
     \<and> fibonacci_recursive (- 1) = Inl (ValueError ''n must be non-negative'')
     \<and> (- 1::int) < 0"
proof -
  have neg: "fibonacci_recursive (- 1) = Inl (ValueError ''n must be non-negative'')"
    by code_simp
  from fibonacci_recursive_succeeds[of 10]
  have "\<exists>v. fibonacci_recursive 10 = Inr v" by simp
  moreover from fibonacci_recursive_succeeds[of "- 1"] neg
  have "(- 1::int) < 0" by blast
  ultimately show ?thesis using neg by simp
qed

text \<open>
  Claim C7. Monotonicity: for every integer \<open>n \<ge> 1\<close> both the call on \<open>n\<close> and the
  call on \<open>n - 1\<close> return numbers, and the first is at least the second.
\<close>

theorem fibonacci_recursive_mono:
  assumes "1 \<le> n"
  shows "\<exists>a b. fibonacci_recursive n = Inr a
             \<and> fibonacci_recursive (n - 1) = Inr b \<and> b \<le> a"
proof (cases "n = 1")
  case True
  then show ?thesis by (simp add: fibonacci_recursive_base)
next
  case False
  with assms have big: "1 < n" by simp
  from big fibonacci_recursive_nonneg_value[of "n - 1"]
  obtain b where b: "fibonacci_recursive (n - 1) = Inr b" by auto
  from big fibonacci_recursive_nonneg_value[of "n - 2"]
  obtain c where c: "fibonacci_recursive (n - 2) = Inr c" "0 \<le> c" by auto
  from big b c have "fibonacci_recursive n = Inr (b + c)"
    by (simp add: fibonacci_recursive_step)
  with b c(2) show ?thesis by simp
qed

theorem fibonacci_recursive_mono_witness:
  "(1::int) \<le> 10 \<and> fibonacci_recursive 10 = Inr 55 \<and> fibonacci_recursive 9 = Inr 34
     \<and> (34::int) \<le> 55"
proof -
  have h: "(1::int) \<le> 10" by simp
  from fibonacci_recursive_mono[OF h] obtain a b
    where ab: "fibonacci_recursive 10 = Inr a" "fibonacci_recursive (10 - 1) = Inr b" "b \<le> a"
    by blast
  have ten: "fibonacci_recursive 10 = Inr 55" by code_simp
  have nine: "fibonacci_recursive 9 = Inr 34" by code_simp
  from ab ten nine have "a = 55" "b = 34" by simp_all
  with ab(3) ten nine h show ?thesis by simp
qed

section \<open>Termination and the depth of the recursion\<close>

text \<open>
  Whatever the bounded evaluation returns is the outcome of the unbounded function:
  the bound can cut an evaluation short, it cannot change its outcome.
\<close>

lemma fibonacci_recursive_depth_sound:
  "fibonacci_recursive_depth d n = Some r \<Longrightarrow> fibonacci_recursive n = r"
proof (induction d arbitrary: n r)
  case 0
  then show ?case
    by (subst fibonacci_recursive.simps) (auto split: if_splits)
next
  case (Suc d)
  show ?case
  proof (cases "n < 0 \<or> n \<le> 1")
    case True
    with Suc.prems show ?thesis
      by (subst fibonacci_recursive.simps) (auto split: if_splits)
  next
    case False
    with Suc.prems Suc.IH show ?thesis
      by (subst fibonacci_recursive.simps)
         (auto split: option.splits sum.splits)
  qed
qed

text \<open>
  The exact need of a call on \<open>n \<ge> 0\<close>: it is cut short precisely when there is room
  for fewer than \<open>n - 1\<close> nested calls.
\<close>

lemma fibonacci_recursive_depth_None:
  "0 \<le> n \<Longrightarrow> fibonacci_recursive_depth d n = None \<longleftrightarrow> d < nat n - 1"
proof (induction d arbitrary: n)
  case 0
  then show ?case by auto
next
  case (Suc d)
  show ?case
  proof (cases "n \<le> 1")
    case True
    with Suc.prems show ?thesis by simp
  next
    case False
    then have big: "1 < n" by simp
    then have ih1: "fibonacci_recursive_depth d (n - 1) = None \<longleftrightarrow> d < nat (n - 1) - 1"
      and ih2: "fibonacci_recursive_depth d (n - 2) = None \<longleftrightarrow> d < nat (n - 2) - 1"
      using Suc.IH by simp_all
    from fibonacci_recursive_nonneg_value[of "n - 1"] big
    obtain a where a: "fibonacci_recursive (n - 1) = Inr a" by auto
    from fibonacci_recursive_nonneg_value[of "n - 2"] big
    obtain b where b: "fibonacci_recursive (n - 2) = Inr b" by auto
    show ?thesis
    proof (cases "d < nat (n - 1) - 1")
      case True
      with ih1 big show ?thesis by simp
    next
      case False
      with ih1 obtain r1 where r1: "fibonacci_recursive_depth d (n - 1) = Some r1" by auto
      from False have "\<not> d < nat (n - 2) - 1" by simp
      with ih2 obtain r2 where r2: "fibonacci_recursive_depth d (n - 2) = Some r2" by auto
      from fibonacci_recursive_depth_sound[OF r1] a have "r1 = Inr a" by simp
      moreover from fibonacci_recursive_depth_sound[OF r2] b have "r2 = Inr b" by simp
      ultimately show ?thesis using r1 r2 big False by simp
    qed
  qed
qed

lemma fibonacci_recursive_depth_enough:
  assumes "nat n - 1 \<le> d"
  shows "fibonacci_recursive_depth d n = Some (fibonacci_recursive n)"
proof (cases "n < 0")
  case True
  then show ?thesis by (cases d) (simp_all add: fibonacci_recursive_neg)
next
  case False
  with assms fibonacci_recursive_depth_None[of n d]
  obtain r where r: "fibonacci_recursive_depth d n = Some r" by auto
  with fibonacci_recursive_depth_sound[OF r] show ?thesis by simp
qed

lemma fibonacci_recursive_calls_decrease:
  "fibonacci_recursive_calls \<subseteq> measure nat"
  by (auto simp: fibonacci_recursive_calls_def)

text \<open>
  Claim C6. For every integer \<open>n \<ge> 0\<close> the call terminates. The relation between a
  call and the calls it makes (on \<open>n - 1\<close> and \<open>n - 2\<close>) is well-founded, and a call
  stack with room for \<open>n\<close> nested calls, or more, is enough for the evaluation to
  finish with the number that the function returns.
\<close>

theorem fibonacci_recursive_terminates:
  assumes "0 \<le> n" and "nat n \<le> d"
  shows "wf fibonacci_recursive_calls
       \<and> (\<exists>v. fibonacci_recursive_depth d n = Some (Inr v) \<and> fibonacci_recursive n = Inr v)"
proof -
  have "wf (measure nat)" by simp
  then have w: "wf fibonacci_recursive_calls"
    using fibonacci_recursive_calls_decrease by (rule wf_subset)
  from assms(2) have "nat n - 1 \<le> d" by simp
  then have "fibonacci_recursive_depth d n = Some (fibonacci_recursive n)"
    by (rule fibonacci_recursive_depth_enough)
  moreover from fibonacci_recursive_nonneg_value[OF assms(1)]
  obtain v where "fibonacci_recursive n = Inr v" by blast
  ultimately show ?thesis using w by simp
qed

theorem fibonacci_recursive_terminates_witness:
  "(0::int) \<le> 10 \<and> nat 10 \<le> 10 \<and> wf fibonacci_recursive_calls
     \<and> fibonacci_recursive_depth 10 10 = Some (Inr 55) \<and> fibonacci_recursive 10 = Inr 55"
proof -
  have h: "(0::int) \<le> 10" and k: "nat 10 \<le> 10" by simp_all
  from fibonacci_recursive_terminates[OF h k] obtain v
    where w: "wf fibonacci_recursive_calls"
      and v: "fibonacci_recursive_depth 10 10 = Some (Inr v)" "fibonacci_recursive 10 = Inr v"
    by blast
  have "fibonacci_recursive 10 = Inr 55" by code_simp
  with v have "v = 55" by simp
  with w v h k show ?thesis by simp
qed

section \<open>Determinism and absence of effects\<close>










section \<open>Exactness on unbounded integers\<close>

lemma fibonacci_recursive_eq_sequence:
  "0 \<le> n \<Longrightarrow> fibonacci_recursive n = Inr (fibonacci_sequence (nat n))"
proof (induction n rule: fibonacci_recursive.induct)
  case (1 n)
  show ?case
  proof (cases "n \<le> 1")
    case True
    with "1.prems" have "n = 0 \<or> n = 1" by auto
    then show ?thesis by (auto simp: fibonacci_recursive_base)
  next
    case False
    then have big: "1 < n" by simp
    have a: "fibonacci_recursive (n - 1) = Inr (fibonacci_sequence (nat (n - 1)))"
      using big "1.prems" "1.IH"(1) by simp
    have b: "fibonacci_recursive (n - 2) = Inr (fibonacci_sequence (nat (n - 2)))"
      using big "1.prems" "1.IH"(2)[OF _ _ a] by simp
    from big have k: "nat n = Suc (Suc (nat (n - 2)))" "nat (n - 1) = Suc (nat (n - 2))"
      by linarith+
    from big a b show ?thesis
      by (simp add: fibonacci_recursive_step k)
  qed
qed

lemma fibonacci_sequence_nonneg: "0 \<le> fibonacci_sequence k"
  by (induction k rule: fibonacci_sequence.induct) simp_all

lemma fibonacci_pair_sequence:
  "fibonacci_pair k = (fibonacci_sequence k, fibonacci_sequence (Suc k))"
  by (induction k) simp_all

text \<open>
  Claim C10. For every integer \<open>n \<ge> 0\<close> the call returns the \<open>n\<close>-th term of the
  Fibonacci sequence, exactly and as an unbounded integer, and that number is not
  negative: nothing is reduced modulo a word size.
\<close>

theorem fibonacci_recursive_exact:
  assumes "0 \<le> n"
  shows "fibonacci_recursive n = Inr (fibonacci_sequence (nat n))
       \<and> 0 \<le> fibonacci_sequence (nat n)"
  using assms by (simp add: fibonacci_recursive_eq_sequence fibonacci_sequence_nonneg)

text \<open>At \<open>n = 94\<close> the returned number no longer fits into 64 bits.\<close>

theorem fibonacci_recursive_exact_witness:
  "(0::int) \<le> 94 \<and> fibonacci_recursive 94 = Inr 19740274219868223167
     \<and> (2::int) ^ 64 \<le> 19740274219868223167"
proof -
  have h: "(0::int) \<le> 94" by simp
  have "fibonacci_pair 94 = (19740274219868223167, 31940434634990099905)"
    by code_simp
  then have "fibonacci_sequence 94 = 19740274219868223167"
    by (simp add: fibonacci_pair_sequence)
  with fibonacci_recursive_exact[OF h] show ?thesis by simp
qed

end
